theory Spec2Isabelle
  imports Main "HOL-Library.Sublist"
begin

section \<open>Text\<close>

text \<open>
  The plugin works on Python \<open>str\<close> values. A text is a \<^typ>\<open>string\<close> whose
  characters are code points: one \<^typ>\<open>char\<close> is one code point below 256, so the
  script texts of this development are the texts of the Latin-1 range. The character
  classes below are those of Python 3 on that range (\<open>str.isspace\<close>, the \<open>\w\<close> of
  \<open>re\<close> on \<open>str\<close> patterns, \<open>str.lower\<close>).
\<close>

abbreviation nl :: char where
  "nl \<equiv> CHR 0x0A"

abbreviation dquote :: char where
  "dquote \<equiv> CHR 0x22"

abbreviation squote :: char where
  "squote \<equiv> CHR 0x27"

definition py_isspace :: "char \<Rightarrow> bool" where
  "py_isspace c =
     (let n = (of_char c :: nat)
      in (9 \<le> n \<and> n \<le> 13) \<or> (28 \<le> n \<and> n \<le> 32) \<or> n = 133 \<or> n = 160)"

definition py_isword :: "char \<Rightarrow> bool" where
  "py_isword c =
     (let n = (of_char c :: nat)
      in (48 \<le> n \<and> n \<le> 57) \<or> (65 \<le> n \<and> n \<le> 90) \<or> n = 95 \<or> (97 \<le> n \<and> n \<le> 122)
         \<or> n = 170 \<or> n = 178 \<or> n = 179 \<or> n = 181 \<or> n = 185 \<or> n = 186
         \<or> (188 \<le> n \<and> n \<le> 190) \<or> (192 \<le> n \<and> n \<le> 214) \<or> (216 \<le> n \<and> n \<le> 246)
         \<or> (248 \<le> n \<and> n \<le> 255))"

definition py_lower :: "char \<Rightarrow> char" where
  "py_lower c =
     (let n = (of_char c :: nat)
      in if (65 \<le> n \<and> n \<le> 90) \<or> (192 \<le> n \<and> n \<le> 222 \<and> n \<noteq> 215)
         then char_of (n + 32) else c)"

definition lower :: "string \<Rightarrow> string" where
  "lower s = map py_lower s"

definition lstrip :: "string \<Rightarrow> string" where
  "lstrip s = dropWhile py_isspace s"

definition rstrip :: "string \<Rightarrow> string" where
  "rstrip s = rev (dropWhile py_isspace (rev s))"

definition strip :: "string \<Rightarrow> string" where
  "strip s = rstrip (lstrip s)"

definition startswith :: "string \<Rightarrow> string \<Rightarrow> bool" where
  "startswith s p = (take (length p) s = p)"

definition endswith :: "string \<Rightarrow> string \<Rightarrow> bool" where
  "endswith s p = (length p \<le> length s \<and> drop (length s - length p) s = p)"

text \<open>\<open>s.split('\n')\<close>: never empty, one more piece than there are newlines.\<close>

fun split_nl :: "string \<Rightarrow> string list" where
  "split_nl [] = [[]]"
| "split_nl (c # cs) =
     (if c = nl then [] # split_nl cs
      else (case split_nl cs of [] \<Rightarrow> [[c]] | l # ls \<Rightarrow> (c # l) # ls))"

text \<open>\<open>'\n'.join(ls)\<close>.\<close>

fun join_nl :: "string list \<Rightarrow> string" where
  "join_nl [] = []"
| "join_nl [l] = l"
| "join_nl (l # m # ls) = l @ nl # join_nl (m # ls)"

section \<open>Risk Scanner\<close>

text \<open>
  The seven regular expressions of \<open>RISKY_PATTERNS\<close> are sequences of four kinds of
  item: a literal, \<open>\s*\<close>, \<open>\b\<close> and \<open>(?<!\w)\<close>. \<open>atoms_match\<close> is the backtracking
  matcher at one position of the text; it carries the character before the position,
  which \<open>\b\<close> and the look-behind read. \<open>\s*\<close> is greedy: it takes a space when it can
  and gives it back when the rest then fails.
\<close>

datatype atom = Lit string | Spaces | WordBoundary | NotAfterWord

definition word_before :: "char option \<Rightarrow> bool" where
  "word_before prev = (case prev of None \<Rightarrow> False | Some c \<Rightarrow> py_isword c)"

definition word_here :: "string \<Rightarrow> bool" where
  "word_here s = (case s of [] \<Rightarrow> False | c # _ \<Rightarrow> py_isword c)"

fun atoms_match :: "atom list \<Rightarrow> char option \<Rightarrow> string \<Rightarrow> bool" where
  "atoms_match [] prev s = True"
| "atoms_match (Lit l # r) prev s =
     (if startswith s l
      then atoms_match r (if l = [] then prev else Some (last l)) (drop (length l) s)
      else False)"
| "atoms_match (Spaces # r) prev [] = atoms_match r prev []"
| "atoms_match (Spaces # r) prev (c # cs) =
     (if py_isspace c
      then (if atoms_match (Spaces # r) (Some c) cs then True else atoms_match r prev (c # cs))
      else atoms_match r prev (c # cs))"
| "atoms_match (WordBoundary # r) prev s =
     (if word_before prev \<noteq> word_here s then atoms_match r prev s else False)"
| "atoms_match (NotAfterWord # r) prev s =
     (if word_before prev then False else atoms_match r prev s)"

text \<open>\<open>re.search\<close>: the positions of the text from left to right, the end included.\<close>

fun search_from :: "atom list \<Rightarrow> char option \<Rightarrow> string \<Rightarrow> bool" where
  "search_from p prev [] = atoms_match p prev []"
| "search_from p prev (c # cs) =
     (if atoms_match p prev (c # cs) then True else search_from p (Some c) cs)"

definition re_search :: "atom list \<Rightarrow> string \<Rightarrow> bool" where
  "re_search p s = search_from p None s"

definition RISKY_PATTERNS :: "(atom list \<times> string) list" where
  "RISKY_PATTERNS =
    [([WordBoundary, Lit ''subprocess'', Spaces, Lit ''.'', Spaces, Lit ''call'', WordBoundary],
        ''subprocess.call''),
     ([WordBoundary, Lit ''subprocess'', Spaces, Lit ''.'', Spaces, Lit ''run'', WordBoundary],
        ''subprocess.run''),
     ([WordBoundary, Lit ''subprocess'', Spaces, Lit ''.'', Spaces, Lit ''Popen'', WordBoundary],
        ''subprocess.Popen''),
     ([WordBoundary, Lit ''os'', Spaces, Lit ''.'', Spaces, Lit ''system'', Spaces, Lit ''(''],
        ''os.system()''),
     ([NotAfterWord, Lit ''eval'', Spaces, Lit ''(''], ''eval()''),
     ([NotAfterWord, Lit ''exec'', Spaces, Lit ''(''], ''exec()''),
     ([WordBoundary, Lit ''__import__'', Spaces, Lit ''(''], ''__import__()'')]"

text \<open>
  The warning sign U+26A0 U+FE0F that opens every warning lies outside the character
  type; it stands here as its six UTF-8 bytes. Nothing below depends on it.
\<close>

definition warning_sign :: string where
  "warning_sign = [CHR 0xE2, CHR 0x9A, CHR 0xA0, CHR 0xEF, CHR 0xB8, CHR 0x8F]"

definition warning_text :: "string \<Rightarrow> string" where
  "warning_text label = warning_sign @ '' Potentially risky operation detected: '' @ label"

definition is_comment_line :: "string \<Rightarrow> bool" where
  "is_comment_line l = startswith (lstrip l) ''#''"

definition code_of :: "string \<Rightarrow> string" where
  "code_of script_content =
     join_nl (filter (\<lambda>l. \<not> is_comment_line l) (split_nl script_content))"

definition validate_script_imports :: "string \<Rightarrow> string list" where
  "validate_script_imports script_content =
     map (\<lambda>(pattern, label). warning_text label)
       (filter (\<lambda>(pattern, label). re_search pattern (code_of script_content)) RISKY_PATTERNS)"

section \<open>Metadata Parser\<close>

text \<open>
  \<open>_parse_docstring_field\<close> searches the content, ignoring case, for the pattern
  \<^verbatim>\<open>(?:"""|''')\s*[\s\S]*?FIELD:\s*([^\n]+)\<close>.
  The functions below are that pattern read from right to left, each with the
  backtracking of the construct it stands for; the result is the text of group 1.
  The field names the plugin passes hold no character that is special in a regular
  expression, so the field is a literal.
\<close>

definition line_group :: "string \<Rightarrow> string option" where
  "line_group s = (let g = takeWhile (\<lambda>c. c \<noteq> nl) s in if g = [] then None else Some g)"

text \<open>\<^verbatim>\<open>\s*([^\n]+)\<close>: the greedy spaces give characters back until the group has one.\<close>

fun match_rest :: "string \<Rightarrow> string option" where
  "match_rest [] = line_group []"
| "match_rest (c # cs) =
     (if py_isspace c
      then (case match_rest cs of Some g \<Rightarrow> Some g | None \<Rightarrow> line_group (c # cs))
      else line_group (c # cs))"

text \<open>\<^verbatim>\<open>FIELD:\s*([^\n]+)\<close> at the head of the text.\<close>

definition match_field :: "string \<Rightarrow> string \<Rightarrow> string option" where
  "match_field field s =
     (if length field \<le> length s \<and> lower (take (length field) s) = lower field
      then (case drop (length field) s of
              [] \<Rightarrow> None
            | c # r \<Rightarrow> if c = CHR '':'' then match_rest r else None)
      else None)"

text \<open>\<^verbatim>\<open>[\s\S]*?\<close> before the field: lazy, the nearest position first.\<close>

fun lazy_any :: "string \<Rightarrow> string \<Rightarrow> string option" where
  "lazy_any field [] = match_field field []"
| "lazy_any field (c # cs) =
     (case match_field field (c # cs) of Some g \<Rightarrow> Some g | None \<Rightarrow> lazy_any field cs)"

text \<open>\<^verbatim>\<open>\s*\<close> after the quotes: greedy.\<close>

fun spaces_then :: "string \<Rightarrow> string \<Rightarrow> string option" where
  "spaces_then field [] = lazy_any field []"
| "spaces_then field (c # cs) =
     (if py_isspace c
      then (case spaces_then field cs of Some g \<Rightarrow> Some g | None \<Rightarrow> lazy_any field (c # cs))
      else lazy_any field (c # cs))"

definition triple_quote :: "string \<Rightarrow> bool" where
  "triple_quote s = (startswith s [dquote, dquote, dquote] \<or> startswith s [squote, squote, squote])"

definition match_here :: "string \<Rightarrow> string \<Rightarrow> string option" where
  "match_here field s = (if triple_quote s then spaces_then field (drop 3 s) else None)"

fun search_field :: "string \<Rightarrow> string \<Rightarrow> string option" where
  "search_field field [] = match_here field []"
| "search_field field (c # cs) =
     (case match_here field (c # cs) of Some g \<Rightarrow> Some g | None \<Rightarrow> search_field field cs)"

text \<open>
  The text that follows the first triple quote of a content, when there is one.
\<close>

fun after_first_opener :: "string \<Rightarrow> string option" where
  "after_first_opener [] = None"
| "after_first_opener (c # cs) =
     (if triple_quote (c # cs) then Some (drop 3 (c # cs)) else after_first_opener cs)"

text \<open>
  Python values, as far as the plugin handles them: \<open>None\<close>, booleans, texts, integers,
  and the classes and modules of the host application, which are opaque here.
\<close>

datatype pyval = PyNone | PyBool bool | PyStr string | PyInt int | HostObject string

definition replace_quotes :: "string \<Rightarrow> string" where
  "replace_quotes s = filter (\<lambda>c. c \<noteq> squote) (filter (\<lambda>c. c \<noteq> dquote) s)"

definition parse_docstring_field :: "string \<Rightarrow> string \<Rightarrow> bool \<Rightarrow> pyval" where
  "parse_docstring_field content field as_bool =
     (case search_field field content of
        None \<Rightarrow> (if as_bool then PyBool False else PyNone)
      | Some g \<Rightarrow>
          if as_bool then PyBool (lower (strip g) \<in> set [''true'', ''yes'', ''1''])
          else PyStr (replace_quotes (strip g)))"

text \<open>
  One entry of the catalog. The display name, which \<open>get_script_info\<close> derives from
  the file name alone, is left out.
\<close>

record script_info =
  path :: string
  description :: string
  toolbar :: bool
  toolbar_label :: pyval
  validated :: bool

definition truthy :: "pyval \<Rightarrow> bool" where
  "truthy v =
     (case v of PyNone \<Rightarrow> False | PyBool b \<Rightarrow> b | PyStr s \<Rightarrow> s \<noteq> [] | PyInt i \<Rightarrow> i \<noteq> 0
      | HostObject _ \<Rightarrow> True)"

definition desc_keys :: "string list" where
  "desc_keys =
     [''Description'',
      ''Descri'' @ [CHR 0xE7, CHR 0xE3] @ ''o'',
      ''Descripci'' @ [CHR 0xF3] @ ''n'']"

text \<open>The loop over \<open>desc_keys\<close>: the last value tried stays, a truthy one stops it.\<close>

fun first_description :: "string \<Rightarrow> string list \<Rightarrow> pyval \<Rightarrow> pyval" where
  "first_description content [] d = d"
| "first_description content (key # keys) d =
     (let d' = parse_docstring_field content key False
      in if truthy d' then d' else first_description content keys d')"

definition bool_of :: "pyval \<Rightarrow> bool" where
  "bool_of v = (case v of PyBool b \<Rightarrow> b | _ \<Rightarrow> False)"

definition parse_fields :: "string \<Rightarrow> string \<Rightarrow> script_info" where
  "parse_fields content script_path =
     (let d = first_description content desc_keys PyNone;
          show_in_toolbar = bool_of (parse_docstring_field content ''Toolbar'' True)
      in \<lparr> path = script_path,
           description = (case d of PyStr s \<Rightarrow> (if s = [] then ''PyQGIS Script'' else s)
                          | _ \<Rightarrow> ''PyQGIS Script''),
           toolbar = show_in_toolbar,
           toolbar_label =
             (if show_in_toolbar then parse_docstring_field content ''ToolbarLabel'' False
              else PyNone),
           validated = bool_of (parse_docstring_field content ''Validated'' True) \<rparr>)"

section \<open>Host, scripts and the manager's state\<close>

text \<open>
  What Python, the file system, the user and the host application contribute to a run is
  a parameter of the model. An exception is known by what the plugin reads of it:
  whether it is an instance of \<open>Exception\<close> (\<open>SystemExit\<close>, \<open>KeyboardInterrupt\<close> and
  \<open>GeneratorExit\<close> are not), what \<open>str(e)\<close> gives, and the text
  \<open>traceback.format_exc()\<close> gives for it. \<open>str(e)\<close> runs the \<open>__str__\<close> of the
  exception's class, which a script can define: it gives a text or raises an exception
  of its own. The handler evaluates \<open>str(e)\<close> in two places, so there are two results:
  \<open>exc_str\<close> for the error message and \<open>exc_str_again\<close> for the error dialog.
  \<open>traceback.format_exc()\<close> guards its own call of \<open>str\<close> and always gives a text.
\<close>

datatype py_exception =
  PyException (exc_is_exception: bool) (exc_str: "string + py_exception")
    (exc_str_again: "string + py_exception") (exc_traceback: string)

text \<open>
  \<open>open\<close> and \<open>read\<close> fail with an \<open>OSError\<close> or a \<open>UnicodeDecodeError\<close>, both of
  class \<open>Exception\<close> and both with a \<open>__str__\<close> of Python's own, which gives a text.
\<close>

record read_failure =
  failure_str :: string
  failure_traceback :: string

datatype ending = Finished | Raised py_exception

text \<open>
  What \<open>exec(script_content, script_globals)\<close> does, as far as the plugin can see it:
  the text the script writes to \<open>sys.stdout\<close> and \<open>sys.stderr\<close>, the module search
  path it leaves behind, and whether it ends or raises. A script that reaches into
  the plugin's own objects is outside this model.
\<close>

record script_run =
  wrote_out :: string
  wrote_err :: string
  left_sys_path :: "string list"
  ended :: ending

datatype std_button = Yes | No

record host =
  read_file :: "string \<Rightarrow> read_failure + string"
  exec_script :: "string \<Rightarrow> (string \<times> pyval) list \<Rightarrow> string list \<Rightarrow> script_run"
  question_reply :: std_button
  tr :: "string \<Rightarrow> string"
  qt_version_str :: string
  compiles :: "string \<Rightarrow> bool"
  dir_exists :: "string \<Rightarrow> bool"
  listdir :: "string \<Rightarrow> string list"

datatype log_level = Info | Warning | Critical | Success

text \<open>What the plugin shows or logs, by kind; the newest event is last.\<close>

datatype event =
    Question "string list"
  | ExecCalled string "(string \<times> pyval) list"
  | StatusMessage bool
  | CriticalBox
  | LogMessage log_level

record manager =
  scripts_dir :: string
  scripts :: "string \<rightharpoonup> script_info"
  validated_acknowledged :: "string set"
  output_buffer :: string
  error_buffer :: string
  sys_path :: "string list"
  console_out :: string
  console_err :: string
  events :: "event list"

definition emit :: "event list \<Rightarrow> manager \<Rightarrow> manager" where
  "emit es m = m\<lparr>events := events m @ es\<rparr>"

subsection \<open>Paths\<close>

text \<open>\<open>os.path\<close> on a POSIX host.\<close>

definition basename :: "string \<Rightarrow> string" where
  "basename p = rev (takeWhile (\<lambda>c. c \<noteq> CHR ''/'') (rev p))"

definition dirname :: "string \<Rightarrow> string" where
  "dirname p =
     (let head = rev (dropWhile (\<lambda>c. c \<noteq> CHR ''/'') (rev p))
      in if head \<noteq> [] \<and> head \<noteq> replicate (length head) CHR ''/''
         then rev (dropWhile (\<lambda>c. c = CHR ''/'') (rev head)) else head)"

definition path_join :: "string \<Rightarrow> string \<Rightarrow> string" where
  "path_join a b =
     (if startswith b ''/'' then b
      else if a = [] \<or> endswith a ''/'' then a @ b
      else a @ ''/'' @ b)"

subsection \<open>SafeScriptExecutor\<close>

text \<open>
  \<open>capture_output\<close> points \<open>sys.stdout\<close> and \<open>sys.stderr\<close> at the two buffers for the
  time of the \<open>with\<close> block and puts the old streams back when the block is left, also
  by an exception. In the model the block is one \<open>exec\<close>: \<open>written\<close> appends what the
  script wrote to the buffers when the capture is on, to the live streams otherwise.
\<close>

definition written :: "bool \<Rightarrow> script_run \<Rightarrow> manager \<Rightarrow> manager" where
  "written capturing r m =
     (if capturing
      then m\<lparr>output_buffer := output_buffer m @ wrote_out r,
             error_buffer := error_buffer m @ wrote_err r\<rparr>
      else m\<lparr>console_out := console_out m @ wrote_out r,
             console_err := console_err m @ wrote_err r\<rparr>)"

definition get_captured_output :: "manager \<Rightarrow> (string \<times> string) \<times> manager" where
  "get_captured_output m =
     ((output_buffer m, error_buffer m), m\<lparr>output_buffer := [], error_buffer := []\<rparr>)"

definition QT_VERSION :: "host \<Rightarrow> int" where
  "QT_VERSION h = (if startswith (qt_version_str h) ''6'' then 6 else 5)"

definition prepare_safe_namespace :: "int \<Rightarrow> string \<Rightarrow> (string \<times> pyval) list" where
  "prepare_safe_namespace qt script_path =
     [(''__name__'', PyStr ''__main__''), (''__file__'', PyStr script_path),
      (''QT_VERSION'', PyInt qt),
      (''QgsProject'', HostObject ''QgsProject''),
      (''QgsVectorLayer'', HostObject ''QgsVectorLayer''),
      (''QgsRasterLayer'', HostObject ''QgsRasterLayer''),
      (''QgsFeature'', HostObject ''QgsFeature''),
      (''QgsGeometry'', HostObject ''QgsGeometry''),
      (''QgsMessageLog'', HostObject ''QgsMessageLog''),
      (''Qgis'', HostObject ''Qgis''),
      (''QgsCoordinateReferenceSystem'', HostObject ''QgsCoordinateReferenceSystem''),
      (''QgsCoordinateTransform'', HostObject ''QgsCoordinateTransform''),
      (''QgsUnitTypes'', HostObject ''QgsUnitTypes''),
      (''QgsWkbTypes'', HostObject ''QgsWkbTypes''),
      (''QgsMapCanvas'', HostObject ''QgsMapCanvas''),
      (''QgsMapTool'', HostObject ''QgsMapTool''),
      (''QgsMapLayerProxyModel'', HostObject ''QgsMapLayerProxyModel''),
      (''QgsProcessingContext'', HostObject ''QgsProcessingContext''),
      (''iface'', HostObject ''iface''),
      (''QMessageBox'', HostObject ''QMessageBox''),
      (''QInputDialog'', HostObject ''QInputDialog''),
      (''QFileDialog'', HostObject ''QFileDialog''),
      (''QProgressBar'', HostObject ''QProgressBar''),
      (''QComboBox'', HostObject ''QComboBox''),
      (''QCheckBox'', HostObject ''QCheckBox''),
      (''Qt'', HostObject ''Qt''),
      (''QTimer'', HostObject ''QTimer''),
      (''QThread'', HostObject ''QThread''),
      (''pyqtSignal'', HostObject ''pyqtSignal''),
      (''QIcon'', HostObject ''QIcon''),
      (''QPixmap'', HostObject ''QPixmap''),
      (''QColor'', HostObject ''QColor''),
      (''json'', HostObject ''json''),
      (''math'', HostObject ''math''),
      (''datetime'', HostObject ''datetime''),
      (''re'', HostObject ''re'')]"

text \<open>A dict literal is read by key; the keys above are distinct.\<close>

definition ns_lookup :: "(string \<times> pyval) list \<Rightarrow> string \<Rightarrow> pyval option" where
  "ns_lookup ns key = map_of ns key"

section \<open>Script Registry\<close>

text \<open>
  \<open>get_script_info\<close> gives \<open>None\<close> when the file cannot be read and when \<open>compile\<close>
  refuses the content. The messages it logs then, and the file watcher, are left out.
\<close>

definition get_script_info :: "host \<Rightarrow> string \<Rightarrow> script_info option" where
  "get_script_info h script_path =
     (case read_file h script_path of
        Inl f \<Rightarrow> None
      | Inr content \<Rightarrow>
          if compiles h content then Some (parse_fields content script_path) else None)"

fun load_files ::
  "host \<Rightarrow> string \<Rightarrow> string list \<Rightarrow> (string \<rightharpoonup> script_info) \<Rightarrow> (string \<rightharpoonup> script_info)" where
  "load_files h d [] acc = acc"
| "load_files h d (filename # rest) acc =
     (if endswith filename ''.py'' \<and> \<not> startswith filename ''__''
      then (case get_script_info h (path_join d filename) of
              Some script_info \<Rightarrow> load_files h d rest (acc(filename \<mapsto> script_info))
            | None \<Rightarrow> load_files h d rest acc)
      else load_files h d rest acc)"

definition load_scripts :: "host \<Rightarrow> manager \<Rightarrow> manager" where
  "load_scripts h m =
     (if dir_exists h (scripts_dir m)
      then emit [LogMessage Info]
             (m\<lparr>scripts := load_files h (scripts_dir m) (listdir h (scripts_dir m)) Map.empty\<rparr>)
      else m\<lparr>scripts := Map.empty\<rparr>)"

section \<open>Script Runner\<close>

text \<open>
  The cross mark U+274C that opens the error text stands here as its three UTF-8 bytes.
\<close>

definition cross_mark :: string where
  "cross_mark = [CHR 0xE2, CHR 0x9D, CHR 0x8C]"

definition detailed_error :: "host \<Rightarrow> string \<Rightarrow> string \<Rightarrow> string \<Rightarrow> string" where
  "detailed_error h script_path e_str e_traceback =
     (let script_name = basename script_path;
          error_msg = cross_mark @ '' '' @ tr h ''error_executing'' @ '' '' @ script_name
                      @ '': '' @ e_str
      in error_msg @ [nl, nl] @ ''Details:'' @ [nl] @ e_traceback)"

text \<open>
  What \<open>execute_script\<close> hands back: the boolean of an interactive run, the tuple of a
  capturing run, or an exception that leaves the method.
\<close>

datatype run_return =
    ReturnedBool bool
  | ReturnedTuple bool string string "string list"
  | Propagated py_exception

text \<open>
  The handler \<open>except Exception as e\<close>. It is entered with \<open>success\<close> false and
  \<open>captured_output\<close> still empty: both are assigned only after \<open>exec\<close> has returned.
  Nothing guards the handler itself: when \<open>str(e)\<close> raises, for the error message or,
  in an interactive run, for the error dialog after the status message has been shown,
  that exception leaves \<open>execute_script\<close>.
\<close>

definition on_exception ::
  "host \<Rightarrow> string \<Rightarrow> bool \<Rightarrow> string + py_exception \<Rightarrow> string + py_exception \<Rightarrow> string
     \<Rightarrow> string list \<Rightarrow> manager \<Rightarrow> run_return \<times> manager" where
  "on_exception h script_path capture_output e_str e_str_again e_traceback
     validation_warnings m =
     (case e_str of
        Inr raised \<Rightarrow> (Propagated raised, m)
      | Inl s \<Rightarrow>
          (let captured_errors = detailed_error h script_path s e_traceback
           in if \<not> capture_output
              then
                (let m1 = emit [StatusMessage True] m
                 in case e_str_again of
                      Inr raised \<Rightarrow> (Propagated raised, m1)
                    | Inl s2 \<Rightarrow>
                        (ReturnedBool False, emit [CriticalBox, LogMessage Critical] m1))
              else (ReturnedTuple False [] captured_errors validation_warnings,
                    emit [LogMessage Critical] m)))"

definition is_validated :: "manager \<Rightarrow> string \<Rightarrow> bool" where
  "is_validated m script_path =
     (case scripts m (basename script_path) of
        None \<Rightarrow> False
      | Some script_info \<Rightarrow> validated script_info)"

text \<open>
  The confirmation step. The result says whether the run goes on; \<open>False\<close> is the
  \<open>return False\<close> after the answer No.
\<close>

definition confirm ::
  "host \<Rightarrow> string \<Rightarrow> bool \<Rightarrow> string list \<Rightarrow> manager \<Rightarrow> bool \<times> manager" where
  "confirm h script_path capture_output validation_warnings m =
     (if validation_warnings \<noteq> [] \<and> \<not> capture_output
      then
        (if \<not> is_validated m script_path \<or> script_path \<notin> validated_acknowledged m
         then
           (let m1 = emit [Question validation_warnings] m
            in if question_reply h = No then (False, m1)
               else if is_validated m script_path
               then (True, m1\<lparr>validated_acknowledged :=
                                 insert script_path (validated_acknowledged m1)\<rparr>)
               else (True, m1))
         else (True, m))
      else (True, m))"

definition with_script_dir :: "string \<Rightarrow> string list \<Rightarrow> string list" where
  "with_script_dir script_path sp =
     (let script_dir = dirname script_path
      in if script_dir \<notin> set sp then script_dir # sp else sp)"

text \<open>
  The inner \<open>try ... finally\<close>: the script runs with its directory on the search path,
  and \<open>sys.path = original_path\<close> is the last thing done on every way out.
\<close>

definition run_body ::
  "host \<Rightarrow> string \<Rightarrow> bool \<Rightarrow> string \<Rightarrow> string list \<Rightarrow> manager \<Rightarrow> run_return \<times> manager" where
  "run_body h script_path capture_output script_content validation_warnings m =
     (let script_globals = prepare_safe_namespace (QT_VERSION h) script_path;
          original_path = sys_path m;
          m1 = m\<lparr>sys_path := with_script_dir script_path (sys_path m)\<rparr>;
          r = exec_script h script_content script_globals (sys_path m1);
          m2 = emit [ExecCalled script_content script_globals] m1;
          m3 = (written capture_output r m2)\<lparr>sys_path := left_sys_path r\<rparr>
      in case ended r of
           Finished \<Rightarrow>
             (let (captured, m4) =
                    (if capture_output then get_captured_output m3 else (([], []), m3));
                  m5 = (if \<not> capture_output then emit [StatusMessage False] m4 else m4);
                  m6 = emit [LogMessage Success] m5;
                  m7 = (if strip (fst captured) \<noteq> [] then emit [LogMessage Info] m6 else m6);
                  m8 = m7\<lparr>sys_path := original_path\<rparr>
              in (if capture_output
                  then ReturnedTuple True (fst captured) (snd captured) validation_warnings
                  else ReturnedBool True,
                  m8))
         | Raised e \<Rightarrow>
             (let m4 = m3\<lparr>sys_path := original_path\<rparr>
              in if exc_is_exception e
                 then on_exception h script_path capture_output (exc_str e) (exc_str_again e)
                        (exc_traceback e) validation_warnings m4
                 else (Propagated e, m4)))"

definition execute_script :: "host \<Rightarrow> string \<Rightarrow> bool \<Rightarrow> manager \<Rightarrow> run_return \<times> manager" where
  "execute_script h script_path capture_output m =
     (case read_file h script_path of
        Inl f \<Rightarrow>
          on_exception h script_path capture_output (Inl (failure_str f)) (Inl (failure_str f))
            (failure_traceback f) [] m
      | Inr script_content \<Rightarrow>
          (let validation_warnings = validate_script_imports script_content;
               (go_on, m1) = confirm h script_path capture_output validation_warnings m
           in if \<not> go_on then (ReturnedBool False, m1)
              else run_body h script_path capture_output script_content validation_warnings m1))"

subsection \<open>Sequences of operations\<close>

text \<open>
  The operations that change the manager's state, each with the host as it is when the
  operation runs: a run of a script, and a reload of the catalog.
\<close>

datatype operation = Execute host string bool | LoadScripts host

fun apply_operation :: "operation \<Rightarrow> manager \<Rightarrow> manager" where
  "apply_operation (Execute h script_path capture_output) m =
     snd (execute_script h script_path capture_output m)"
| "apply_operation (LoadScripts h) m = load_scripts h m"

fun run_operations :: "operation list \<Rightarrow> manager \<Rightarrow> manager" where
  "run_operations [] m = m"
| "run_operations (x # xs) m = run_operations xs (apply_operation x m)"

text \<open>Each operation of a sequence with the state it starts in.\<close>

fun steps :: "operation list \<Rightarrow> manager \<Rightarrow> (operation \<times> manager) list" where
  "steps [] m = []"
| "steps (x # xs) m = (x, m) # steps xs (apply_operation x m)"

text \<open>The state of a freshly created \<open>ScriptManager\<close>.\<close>

definition new_manager :: "string \<Rightarrow> string list \<Rightarrow> manager" where
  "new_manager d sp =
     \<lparr> scripts_dir = d, scripts = Map.empty, validated_acknowledged = {},
       output_buffer = [], error_buffer = [], sys_path = sp,
       console_out = [], console_err = [], events = [] \<rparr>"

subsection \<open>Observing a run\<close>

definition new_events :: "manager \<Rightarrow> manager \<Rightarrow> event list" where
  "new_events m m' = drop (length (events m)) (events m')"

definition is_question :: "event \<Rightarrow> bool" where
  "is_question e = (case e of Question _ \<Rightarrow> True | _ \<Rightarrow> False)"

definition prompted :: "manager \<Rightarrow> manager \<Rightarrow> bool" where
  "prompted m m' = list_ex is_question (new_events m m')"


definition exec_namespaces :: "event list \<Rightarrow> (string \<times> pyval) list list" where
  "exec_namespaces es = concat (map (\<lambda>e. case e of ExecCalled _ ns \<Rightarrow> [ns] | _ \<Rightarrow> []) es)"

text \<open>
  A step acknowledges a path when it is an interactive run of that path, the record of
  the path is validated in the state the step starts in, the user is asked, and the
  answer is Yes.
\<close>

definition acknowledges :: "string \<Rightarrow> operation \<times> manager \<Rightarrow> bool" where
  "acknowledges p xm =
     (case xm of
        (Execute h script_path capture_output, m) \<Rightarrow>
          script_path = p \<and> \<not> capture_output \<and> is_validated m p \<and> question_reply h = Yes
          \<and> prompted m (snd (execute_script h script_path capture_output m))
      | (LoadScripts h, m) \<Rightarrow> False)"

section \<open>Example hosts\<close>

text \<open>
  A host with one script, \<open>/scripts/demo.py\<close>, of the given content; \<open>exec\<close> of it
  behaves as the given run says, and the user gives the given answer when asked.
\<close>

definition demo_host :: "string \<Rightarrow> script_run \<Rightarrow> std_button \<Rightarrow> host" where
  "demo_host content r reply =
     \<lparr> read_file = (\<lambda>p. if p = ''/scripts/demo.py'' then Inr content
                         else Inl \<lparr> failure_str = ''[Errno 2] No such file or directory'',
                                    failure_traceback = ''Traceback (most recent call last):'' \<rparr>),
       exec_script = (\<lambda>c ns sp. r),
       question_reply = reply,
       tr = (\<lambda>key. key),
       qt_version_str = ''6.5.0'',
       compiles = (\<lambda>c. True),
       dir_exists = (\<lambda>d. True),
       listdir = (\<lambda>d. [''demo.py'']) \<rparr>"

definition demo_manager :: manager where
  "demo_manager = new_manager ''/scripts'' [''/usr/lib/python3'']"

text \<open>
  A script that prints \<open>before\<close> and then raises \<open>ValueError("boom")\<close>, and what
  \<open>exec\<close> of it does.
\<close>

definition raising_content :: string where
  "raising_content =
     ''print('' @ [dquote] @ ''before'' @ [dquote] @ '')'' @ [nl]
     @ ''raise ValueError('' @ [dquote] @ ''boom'' @ [dquote] @ '')''"

definition value_error :: py_exception where
  "value_error =
     PyException True (Inl ''boom'') (Inl ''boom'')
       (''Traceback (most recent call last):'' @ [nl] @ ''ValueError: boom'')"

definition prints_then_raises :: script_run where
  "prints_then_raises =
     \<lparr> wrote_out = ''before'' @ [nl], wrote_err = [],
       left_sys_path = [''/scripts'', ''/usr/lib/python3''], ended = Raised value_error \<rparr>"

text \<open>A script that calls \<open>sys.exit(3)\<close>, and what \<open>exec\<close> of it does.\<close>

definition exit_content :: string where
  "exit_content = ''import sys'' @ [nl] @ ''sys.exit(3)''"

definition system_exit :: py_exception where
  "system_exit =
     PyException False (Inl ''3'') (Inl ''3'')
       (''Traceback (most recent call last):'' @ [nl] @ ''SystemExit: 3'')"

definition exits :: script_run where
  "exits =
     \<lparr> wrote_out = [], wrote_err = [],
       left_sys_path = [''/scripts'', ''/usr/lib/python3''], ended = Raised system_exit \<rparr>"

text \<open>
  A script that defines a class \<open>Mute(Exception)\<close> whose \<open>__str__\<close> raises
  \<open>RuntimeError("no text")\<close>, and raises a \<open>Mute\<close>; and what \<open>exec\<close> of it does.
\<close>

definition mute_content :: string where
  "mute_content =
     ''class Mute(Exception):'' @ [nl]
     @ ''    def __str__(self):'' @ [nl]
     @ ''        raise RuntimeError('' @ [dquote] @ ''no text'' @ [dquote] @ '')'' @ [nl]
     @ ''raise Mute()''"

definition runtime_error :: py_exception where
  "runtime_error =
     PyException True (Inl ''no text'') (Inl ''no text'')
       (''Traceback (most recent call last):'' @ [nl] @ ''RuntimeError: no text'')"

definition mute_error :: py_exception where
  "mute_error =
     PyException True (Inr runtime_error) (Inr runtime_error)
       (''Traceback (most recent call last):'' @ [nl] @ ''Mute: <exception str() failed>'')"

definition raises_mute :: script_run where
  "raises_mute =
     \<lparr> wrote_out = [], wrote_err = [],
       left_sys_path = [''/scripts'', ''/usr/lib/python3''], ended = Raised mute_error \<rparr>"

text \<open>
  A script that puts a directory of its own on the search path, prints \<open>hi\<close> and
  ends, and what \<open>exec\<close> of it does.
\<close>

definition hello_content :: string where
  "hello_content =
     ''import sys'' @ [nl] @ ''sys.path.insert(0, '' @ [dquote] @ ''/tmp/mine'' @ [dquote] @ '')''
     @ [nl] @ ''print('' @ [dquote] @ ''hi'' @ [dquote] @ '')''"

definition prints_hi :: script_run where
  "prints_hi =
     \<lparr> wrote_out = ''hi'' @ [nl], wrote_err = [],
       left_sys_path = [''/tmp/mine'', ''/scripts'', ''/usr/lib/python3''], ended = Finished \<rparr>"

text \<open>A run that writes nothing and ends.\<close>

definition quiet_run :: script_run where
  "quiet_run =
     \<lparr> wrote_out = [], wrote_err = [],
       left_sys_path = [''/scripts'', ''/usr/lib/python3''], ended = Finished \<rparr>"

text \<open>A script that calls \<open>os.system\<close> twice and then \<open>subprocess.call\<close>.\<close>

definition risky_content :: string where
  "risky_content =
     ''import os'' @ [nl] @ ''os.system(1)'' @ [nl] @ ''os.system(2)'' @ [nl]
     @ ''import subprocess'' @ [nl] @ ''subprocess.call([])''"

definition demo_record :: "bool \<Rightarrow> script_info" where
  "demo_record v =
     \<lparr> path = ''/scripts/demo.py'', description = ''PyQGIS Script'', toolbar = False,
       toolbar_label = PyNone, validated = v \<rparr>"

text \<open>A manager whose catalog holds \<open>demo.py\<close>, validated or not, with the given paths acknowledged.\<close>

definition demo_manager_with :: "bool \<Rightarrow> string set \<Rightarrow> manager" where
  "demo_manager_with v acks =
     demo_manager\<lparr>scripts := [''demo.py'' \<mapsto> demo_record v], validated_acknowledged := acks\<rparr>"

text \<open>
  A script whose docstring declares it validated and whose body calls \<open>os.system\<close>.
\<close>

definition validated_risky_content :: string where
  "validated_risky_content =
     [dquote, dquote, dquote] @ [nl] @ ''Validated: true'' @ [nl] @ [dquote, dquote, dquote]
     @ [nl] @ ''import os'' @ [nl] @ ''os.system(1)''"

text \<open>
  A script with two triple-quoted strings, of which only the second declares
  \<open>Validated\<close>, and the same script without the second string.
\<close>

definition two_docstrings :: string where
  "two_docstrings =
     [dquote, dquote, dquote] @ ''Adds a buffer.'' @ [dquote, dquote, dquote] @ [nl]
     @ [dquote, dquote, dquote] @ [nl] @ ''Validated: true'' @ [nl] @ [dquote, dquote, dquote]
     @ [nl] @ ''print(1)''"

definition one_docstring :: string where
  "one_docstring =
     [dquote, dquote, dquote] @ ''Adds a buffer.'' @ [dquote, dquote, dquote] @ [nl]
     @ ''print(1)''"

text \<open>
  A script whose docstring shows a call of \<open>os.system\<close> as an example of use; its code
  is \<open>print(1)\<close>.
\<close>

definition docstring_example :: string where
  "docstring_example =
     [dquote, dquote, dquote] @ ''Example of use:'' @ [nl] @ ''    os.system(cmd)'' @ [nl]
     @ [dquote, dquote, dquote] @ [nl] @ ''print(1)''"

text \<open>The lines of a script that mentions \<open>os.system\<close> in comment lines only.\<close>

definition commented_lines :: "string list" where
  "commented_lines = [''import os'', ''# os.system(1)'', ''    # os.system(2)'', ''print(1)'']"

section \<open>Properties of a run\<close>

subsection \<open>The two ways the file read can go\<close>

lemma execute_script_unreadable:
  "read_file h p = Inl f \<Longrightarrow>
   execute_script h p c m =
     on_exception h p c (Inl (failure_str f)) (Inl (failure_str f)) (failure_traceback f) [] m"
  by (simp add: execute_script_def)

text \<open>The handler when both evaluations of \<open>str(e)\<close> give a text.\<close>

lemma on_exception_text:
  "on_exception h p c (Inl s) (Inl s2) t w m =
     (if c then ReturnedTuple False [] (detailed_error h p s t) w else ReturnedBool False,
      emit ((if c then [] else [StatusMessage True, CriticalBox]) @ [LogMessage Critical]) m)"
  by (simp add: on_exception_def emit_def Let_def)

text \<open>What the handler hands back does not depend on the state it starts in.\<close>

lemma fst_on_exception:
  "fst (on_exception h p c s s2 t w m) =
     (case s of
        Inr raised \<Rightarrow> Propagated raised
      | Inl a \<Rightarrow>
          if c then ReturnedTuple False [] (detailed_error h p a t) w
          else (case s2 of Inr raised \<Rightarrow> Propagated raised | Inl b \<Rightarrow> ReturnedBool False))"
  by (simp add: on_exception_def Let_def split: sum.splits)

lemma execute_script_readable:
  "read_file h p = Inr content \<Longrightarrow>
   execute_script h p c m =
     (if fst (confirm h p c (validate_script_imports content) m)
      then run_body h p c content (validate_script_imports content)
             (snd (confirm h p c (validate_script_imports content) m))
      else (ReturnedBool False, snd (confirm h p c (validate_script_imports content) m)))"
  by (simp add: execute_script_def Let_def split: prod.splits)

lemma detailed_error_nonempty: "detailed_error h p s t \<noteq> []"
  by (simp add: detailed_error_def cross_mark_def Let_def)

subsection \<open>The module search path\<close>

lemma sys_path_on_exception: "sys_path (snd (on_exception h p c s s2 t w m)) = sys_path m"
  by (simp add: on_exception_def emit_def Let_def split: sum.splits)

lemma sys_path_confirm: "sys_path (snd (confirm h p c w m)) = sys_path m"
  by (simp add: confirm_def emit_def Let_def)

lemma sys_path_run_body: "sys_path (snd (run_body h p c s w m)) = sys_path m"
  by (simp add: run_body_def emit_def Let_def get_captured_output_def written_def
      on_exception_def split: ending.splits prod.splits sum.splits)

text \<open>
  Claim C8. Whatever the mode and however the run ends (the script ends, it raises an
  exception that is caught, it raises one that leaves the method, the user answers No,
  the file cannot be read), \<open>sys.path\<close> after the run is \<open>sys.path\<close> before it: neither
  the script's directory nor anything the script put there stays.
\<close>

theorem execute_script_restores_sys_path:
  "sys_path (snd (execute_script h script_path capture_output m)) = sys_path m"
proof (cases "read_file h script_path")
  case (Inl f)
  then show ?thesis
    by (simp add: execute_script_unreadable sys_path_on_exception)
next
  case (Inr content)
  then show ?thesis
    by (simp add: execute_script_readable sys_path_run_body sys_path_confirm)
qed

theorem execute_script_restores_sys_path_witness:
  "sys_path (snd (execute_script (demo_host hello_content prints_hi Yes)
                    ''/scripts/demo.py'' True demo_manager))
     = [''/usr/lib/python3'']
   \<and> sys_path (snd (execute_script (demo_host exit_content exits Yes)
                      ''/scripts/demo.py'' False demo_manager))
     = [''/usr/lib/python3'']"
  using execute_script_restores_sys_path
          [of "demo_host hello_content prints_hi Yes" "''/scripts/demo.py''" True demo_manager]
        execute_script_restores_sys_path
          [of "demo_host exit_content exits Yes" "''/scripts/demo.py''" False demo_manager]
  by (simp add: demo_manager_def new_manager_def)

subsection \<open>The example hosts, evaluated\<close>

lemma demo_read: "read_file (demo_host content r b) ''/scripts/demo.py'' = Inr content"
  by (simp add: demo_host_def)

lemma demo_missing:
  "read_file (demo_host content r b) ''/scripts/missing.py''
     = Inl \<lparr> failure_str = ''[Errno 2] No such file or directory'',
             failure_traceback = ''Traceback (most recent call last):'' \<rparr>"
  by (simp add: demo_host_def)

lemma demo_exec: "exec_script (demo_host content r b) c ns sp = r"
  by (simp add: demo_host_def)

lemma demo_reply: "question_reply (demo_host content r b) = b"
  by (simp add: demo_host_def)

lemma demo_tr: "tr (demo_host content r b) k = k"
  by (simp add: demo_host_def)

lemma demo_qt: "QT_VERSION (demo_host content r b) = 6"
  by (simp add: demo_host_def QT_VERSION_def startswith_def)

lemma basename_demo: "basename ''/scripts/demo.py'' = ''demo.py''"
  by (simp add: basename_def)

lemma dirname_demo: "dirname ''/scripts/demo.py'' = ''/scripts''"
  by (simp add: dirname_def)

lemma is_validated_demo: "is_validated (demo_manager_with v acks) ''/scripts/demo.py'' = v"
  by (simp add: is_validated_def demo_manager_with_def demo_record_def basename_demo)

lemma risky_content_warnings:
  "validate_script_imports risky_content
     = [warning_text ''subprocess.call'', warning_text ''os.system()'']"
  by code_simp

lemma hello_content_warnings: "validate_script_imports hello_content = []"
  by code_simp

lemma raising_content_warnings: "validate_script_imports raising_content = []"
  by code_simp

subsection \<open>Unreadable files\<close>

text \<open>
  Claim C9. When the file of the path cannot be read, a capturing run does not raise: it
  returns failure with empty output, a diagnostic text that is not empty and no
  warnings, and it leaves the catalog and the set of acknowledged paths as they were.
\<close>

theorem unreadable_file_is_reported:
  assumes "read_file h script_path = Inl f"
  shows "fst (execute_script h script_path True m)
           = ReturnedTuple False []
               (detailed_error h script_path (failure_str f) (failure_traceback f)) []
         \<and> detailed_error h script_path (failure_str f) (failure_traceback f) \<noteq> []
         \<and> scripts (snd (execute_script h script_path True m)) = scripts m
         \<and> validated_acknowledged (snd (execute_script h script_path True m))
             = validated_acknowledged m"
  using assms
  by (simp add: execute_script_unreadable on_exception_text emit_def detailed_error_nonempty)

theorem unreadable_file_is_reported_witness:
  "fst (execute_script (demo_host hello_content prints_hi Yes) ''/scripts/missing.py'' True
          demo_manager)
     = ReturnedTuple False []
         (cross_mark @ '' error_executing missing.py: [Errno 2] No such file or directory''
            @ [nl, nl] @ ''Details:'' @ [nl] @ ''Traceback (most recent call last):'') []
   \<and> scripts (snd (execute_script (demo_host hello_content prints_hi Yes)
                     ''/scripts/missing.py'' True demo_manager)) = Map.empty
   \<and> validated_acknowledged (snd (execute_script (demo_host hello_content prints_hi Yes)
                     ''/scripts/missing.py'' True demo_manager)) = {}"
  using unreadable_file_is_reported
          [OF demo_missing, of hello_content prints_hi Yes demo_manager]
  by (simp add: detailed_error_def basename_def demo_tr demo_manager_def new_manager_def)

subsection \<open>Exceptions of the script\<close>

lemma confirm_capture: "confirm h p True w m = (True, m)"
  by (simp add: confirm_def)

lemma run_body_raised:
  assumes "ended (exec_script h content (prepare_safe_namespace (QT_VERSION h) p)
                    (with_script_dir p (sys_path m))) = Raised e"
  shows "fst (run_body h p c content w m) =
           (if exc_is_exception e
            then (case exc_str e of
                    Inr raised \<Rightarrow> Propagated raised
                  | Inl s \<Rightarrow>
                      if c then ReturnedTuple False [] (detailed_error h p s (exc_traceback e)) w
                      else (case exc_str_again e of
                              Inr raised \<Rightarrow> Propagated raised
                            | Inl s2 \<Rightarrow> ReturnedBool False))
            else Propagated e)"
  using assms by (simp add: run_body_def Let_def fst_on_exception)




text \<open>
  The unguarded \<open>str(e)\<close> of the handler: an exception of class \<open>Exception\<close> whose
  \<open>__str__\<close> raises is caught, and what its \<open>__str__\<close> raises leaves
  \<open>execute_script\<close>, in both modes.
\<close>

lemma str_failure_leaves_execute_script:
  assumes "read_file h script_path = Inr content"
    and "ended (exec_script h content (prepare_safe_namespace (QT_VERSION h) script_path)
                  (with_script_dir script_path (sys_path m))) = Raised e"
    and "exc_is_exception e"
    and "exc_str e = Inr raised"
    and "fst (confirm h script_path capture_output (validate_script_imports content) m)"
  shows "fst (execute_script h script_path capture_output m) = Propagated raised"
  using assms
  by (simp add: execute_script_readable run_body_raised sys_path_confirm)

lemma mute_error_leaves_execute_script:
  "fst (execute_script (demo_host mute_content raises_mute Yes) ''/scripts/demo.py'' True
          demo_manager)
     = Propagated runtime_error"
  by (simp add: execute_script_readable [OF demo_read] confirm_capture run_body_def Let_def
        demo_exec raises_mute_def mute_error_def fst_on_exception)

text \<open>
  Claim C1. A script, free of risky patterns, prints \<open>before\<close> and then raises an
  exception of class \<open>Exception\<close>. The capturing run does not hand back what the script
  printed: when \<open>str(e)\<close> gives a text it returns failure, a diagnostic text and no
  warnings with an empty output text, and when \<open>str(e)\<close> raises it returns nothing.
  \<open>get_captured_output\<close> is called only after \<open>exec\<close> has returned, so what the script
  printed stays in the buffer.
\<close>

theorem output_before_exception_not_returned:
  assumes "read_file h script_path = Inr content"
    and "validate_script_imports content = []"
    and "wrote_out (exec_script h content (prepare_safe_namespace (QT_VERSION h) script_path)
                     (with_script_dir script_path (sys_path m))) = ''before'' @ [nl]"
    and "ended (exec_script h content (prepare_safe_namespace (QT_VERSION h) script_path)
                  (with_script_dir script_path (sys_path m))) = Raised e"
    and "exc_is_exception e"
  shows "fst (execute_script h script_path True m)
           = (case exc_str e of
                Inl s \<Rightarrow>
                  ReturnedTuple False [] (detailed_error h script_path s (exc_traceback e)) []
              | Inr raised \<Rightarrow> Propagated raised)
         \<and> output_buffer (snd (execute_script h script_path True m))
             = output_buffer m @ ''before'' @ [nl]"
  using assms
  by (simp add: execute_script_readable confirm_capture run_body_def Let_def on_exception_def
        emit_def written_def split: sum.splits)

theorem output_before_exception_not_returned_witness:
  "fst (execute_script (demo_host raising_content prints_then_raises Yes) ''/scripts/demo.py''
          True demo_manager)
     = ReturnedTuple False []
         (cross_mark @ '' error_executing demo.py: boom'' @ [nl, nl] @ ''Details:'' @ [nl]
            @ ''Traceback (most recent call last):'' @ [nl] @ ''ValueError: boom'') []
   \<and> output_buffer (snd (execute_script (demo_host raising_content prints_then_raises Yes)
                            ''/scripts/demo.py'' True demo_manager))
       = ''before'' @ [nl]"
proof -
  let ?h = "demo_host raising_content prints_then_raises Yes"
  have wrote: "wrote_out (exec_script ?h raising_content
                  (prepare_safe_namespace (QT_VERSION ?h) ''/scripts/demo.py'')
                  (with_script_dir ''/scripts/demo.py'' (sys_path demo_manager)))
                = ''before'' @ [nl]"
    by (simp add: demo_exec prints_then_raises_def)
  have raised: "ended (exec_script ?h raising_content
                  (prepare_safe_namespace (QT_VERSION ?h) ''/scripts/demo.py'')
                  (with_script_dir ''/scripts/demo.py'' (sys_path demo_manager)))
                = Raised value_error"
    by (simp add: demo_exec prints_then_raises_def)
  have exc: "exc_is_exception value_error"
    by (simp add: value_error_def)
  show ?thesis
    using output_before_exception_not_returned
            [OF demo_read raising_content_warnings wrote raised exc]
    by (simp add: detailed_error_def basename_demo demo_tr value_error_def demo_manager_def
          new_manager_def)
qed

text \<open>
  The text left in the buffer is handed out by the next capturing run that ends well,
  in front of that run's own output.
\<close>

lemma stale_output_reaches_next_run:
  "fst (execute_script (demo_host hello_content prints_hi Yes) ''/scripts/demo.py'' True
          (snd (execute_script (demo_host raising_content prints_then_raises Yes)
                  ''/scripts/demo.py'' True demo_manager)))
     = ReturnedTuple True (''before'' @ [nl] @ ''hi'' @ [nl]) [] []"
  by (simp add: execute_script_readable [OF demo_read] hello_content_warnings
        raising_content_warnings confirm_capture
        run_body_def Let_def demo_exec prints_then_raises_def prints_hi_def value_error_def
        on_exception_def emit_def written_def get_captured_output_def demo_manager_def
        new_manager_def)

subsection \<open>The events of a run\<close>

lemma ns_name: "ns_lookup (prepare_safe_namespace qt p) ''__name__'' = Some (PyStr ''__main__'')"
  by (simp add: ns_lookup_def prepare_safe_namespace_def)

lemma ns_file: "ns_lookup (prepare_safe_namespace qt p) ''__file__'' = Some (PyStr p)"
  by (simp add: ns_lookup_def prepare_safe_namespace_def)

lemma events_on_exception:
  "\<exists>es. events (snd (on_exception h p c s s2 t w m)) = events m @ es
       \<and> exec_namespaces es = [] \<and> \<not> list_ex is_question es"
  by (simp add: on_exception_def emit_def Let_def exec_namespaces_def is_question_def
      split: sum.splits)

lemma events_confirm:
  "events (snd (confirm h p c w m)) =
     events m @ (if w \<noteq> [] \<and> \<not> c \<and> (\<not> is_validated m p \<or> p \<notin> validated_acknowledged m) then [Question w] else [])"
  by (simp add: confirm_def emit_def Let_def)

lemma events_run_body:
  "\<exists>es. events (snd (run_body h p c s w m))
           = events m @ ExecCalled s (prepare_safe_namespace (QT_VERSION h) p) # es
       \<and> exec_namespaces es = [] \<and> \<not> list_ex is_question es"
proof -
  let ?ns = "prepare_safe_namespace (QT_VERSION h) p"
  let ?r = "exec_script h s ?ns (with_script_dir p (sys_path m))"
  show ?thesis
  proof (cases "ended ?r")
    case Finished
    then show ?thesis
      by (simp add: run_body_def emit_def Let_def get_captured_output_def written_def
          exec_namespaces_def is_question_def split: prod.splits)
  next
    case (Raised e)
    define m4 where
      "m4 = ((written c ?r (emit [ExecCalled s ?ns]
                (m\<lparr>sys_path := with_script_dir p (sys_path m)\<rparr>)))
              \<lparr>sys_path := left_sys_path ?r\<rparr>)\<lparr>sys_path := sys_path m\<rparr>"
    have ev4: "events m4 = events m @ [ExecCalled s ?ns]"
      by (simp add: m4_def written_def emit_def)
    have rb: "run_body h p c s w m =
                (if exc_is_exception e
                 then on_exception h p c (exc_str e) (exc_str_again e) (exc_traceback e) w m4
                 else (Propagated e, m4))"
      using Raised by (simp add: run_body_def Let_def m4_def)
    show ?thesis
    proof (cases "exc_is_exception e")
      case True
      obtain es where es:
        "events (snd (on_exception h p c (exc_str e) (exc_str_again e) (exc_traceback e) w m4))
           = events m4 @ es"
        "exec_namespaces es = []" "\<not> list_ex is_question es"
        using events_on_exception by blast
      then show ?thesis using rb True ev4 by auto
    next
      case False
      then show ?thesis using rb ev4 by (simp add: exec_namespaces_def)
    qed
  qed
qed

lemma exec_namespaces_append: "exec_namespaces (a @ b) = exec_namespaces a @ exec_namespaces b"
  by (simp add: exec_namespaces_def)

lemma events_execute_script:
  "\<exists>qs es. events (snd (execute_script h p c m)) = events m @ qs @ es
      \<and> exec_namespaces qs = []
      \<and> set (exec_namespaces es) \<subseteq> {prepare_safe_namespace (QT_VERSION h) p}
      \<and> \<not> list_ex is_question es
      \<and> (case read_file h p of Inl f \<Rightarrow> qs = []
          | Inr content \<Rightarrow> qs = (if validate_script_imports content \<noteq> [] \<and> \<not> c
                 \<and> (\<not> is_validated m p \<or> p \<notin> validated_acknowledged m)
                then [Question (validate_script_imports content)] else []))"
proof (cases "read_file h p")
  case (Inl f)
  obtain es where "events (snd (execute_script h p c m)) = events m @ es"
      "exec_namespaces es = []" "\<not> list_ex is_question es"
    using events_on_exception execute_script_unreadable [OF Inl] by metis
  then show ?thesis
    using Inl by (intro exI[of _ "[]"] exI[of _ es]) (simp add: exec_namespaces_def)
next
  case (Inr content)
  let ?w = "validate_script_imports content"
  let ?qs = "if ?w \<noteq> [] \<and> \<not> c \<and> (\<not> is_validated m p \<or> p \<notin> validated_acknowledged m) then [Question ?w] else []"
  have q: "exec_namespaces ?qs = []" by (simp add: exec_namespaces_def)
  show ?thesis
  proof (cases "fst (confirm h p c ?w m)")
    case True
    obtain es where es: "events (snd (run_body h p c content ?w (snd (confirm h p c ?w m))))
        = events (snd (confirm h p c ?w m)) @ ExecCalled content (prepare_safe_namespace (QT_VERSION h) p) # es"
        "exec_namespaces es = []" "\<not> list_ex is_question es"
      using events_run_body by blast
    have "events (snd (execute_script h p c m)) = events m @ ?qs @ (ExecCalled content (prepare_safe_namespace (QT_VERSION h) p) # es)"
      using Inr True es(1) by (simp add: execute_script_readable events_confirm)
    moreover have "set (exec_namespaces (ExecCalled content (prepare_safe_namespace (QT_VERSION h) p) # es)) \<subseteq> {prepare_safe_namespace (QT_VERSION h) p}"
      using es(2) exec_namespaces_append[of "[ExecCalled content (prepare_safe_namespace (QT_VERSION h) p)]" es]
      by (simp add: exec_namespaces_def)
    moreover have "\<not> list_ex is_question (ExecCalled content (prepare_safe_namespace (QT_VERSION h) p) # es)"
      using es(3) by (simp add: is_question_def)
    ultimately show ?thesis using Inr q by (intro exI[of _ ?qs] exI[of _ "ExecCalled content (prepare_safe_namespace (QT_VERSION h) p) # es"]) simp
  next
    case False
    have "events (snd (execute_script h p c m)) = events m @ ?qs @ []"
      using Inr False by (simp add: execute_script_readable events_confirm)
    then show ?thesis using Inr q by (intro exI[of _ ?qs] exI[of _ "[]"]) (simp add: exec_namespaces_def)
  qed
qed

text \<open>
  Claim C10. The namespace \<open>prepare_safe_namespace\<close> builds maps \<open>__name__\<close> to
  \<open>__main__\<close> and \<open>__file__\<close> to the script's own path, and every \<open>exec\<close> of a run
  is given that namespace.
\<close>

theorem namespace_is_main_with_own_file:
  "ns_lookup (prepare_safe_namespace qt script_path) ''__name__'' = Some (PyStr ''__main__'')
   \<and> ns_lookup (prepare_safe_namespace qt script_path) ''__file__'' = Some (PyStr script_path)
   \<and> (\<forall>ns \<in> set (exec_namespaces (new_events m (snd (execute_script h script_path capture_output m)))).
        ns_lookup ns ''__name__'' = Some (PyStr ''__main__'')
        \<and> ns_lookup ns ''__file__'' = Some (PyStr script_path))"
proof -
  obtain qs es where e: "events (snd (execute_script h script_path capture_output m)) = events m @ qs @ es"
      "exec_namespaces qs = []"
      "set (exec_namespaces es) \<subseteq> {prepare_safe_namespace (QT_VERSION h) script_path}"
    using events_execute_script by blast
  have "new_events m (snd (execute_script h script_path capture_output m)) = qs @ es"
    using e(1) by (simp add: new_events_def)
  then have "set (exec_namespaces (new_events m (snd (execute_script h script_path capture_output m))))
      \<subseteq> {prepare_safe_namespace (QT_VERSION h) script_path}"
    using e(2,3) by (simp add: exec_namespaces_append)
  then show ?thesis using ns_name ns_file by auto
qed

lemma demo_run_events:
  "new_events demo_manager (snd (execute_script (demo_host hello_content prints_hi Yes) ''/scripts/demo.py'' True demo_manager))
    = [ExecCalled hello_content (prepare_safe_namespace 6 ''/scripts/demo.py''), LogMessage Success, LogMessage Info]"
  by (simp add: execute_script_readable [OF demo_read] hello_content_warnings confirm_capture
        run_body_def Let_def demo_exec demo_qt prints_hi_def emit_def written_def
        get_captured_output_def demo_manager_def new_manager_def new_events_def strip_def lstrip_def rstrip_def py_isspace_def)

theorem namespace_is_main_with_own_file_witness:
  "exec_namespaces (new_events demo_manager (snd (execute_script (demo_host hello_content prints_hi Yes) ''/scripts/demo.py'' True demo_manager)))
     = [prepare_safe_namespace 6 ''/scripts/demo.py'']
   \<and> ns_lookup (prepare_safe_namespace 6 ''/scripts/demo.py'') ''__name__'' = Some (PyStr ''__main__'')
   \<and> ns_lookup (prepare_safe_namespace 6 ''/scripts/demo.py'') ''__file__'' = Some (PyStr ''/scripts/demo.py'')"
proof -
  have run: "exec_namespaces (new_events demo_manager (snd (execute_script (demo_host hello_content prints_hi Yes) ''/scripts/demo.py'' True demo_manager)))
     = [prepare_safe_namespace 6 ''/scripts/demo.py'']"
    by (simp add: demo_run_events exec_namespaces_def)
  show ?thesis
    using namespace_is_main_with_own_file [of 6 "''/scripts/demo.py''" demo_manager "demo_host hello_content prints_hi Yes" True] run
    by simp
qed

subsection \<open>The confirmation prompt\<close>

lemma prompted_interactive:
  assumes "read_file h p = Inr content"
    and "validate_script_imports content \<noteq> []"
  shows "prompted m (snd (execute_script h p False m))
           = (\<not> is_validated m p \<or> p \<notin> validated_acknowledged m)"
proof -
  obtain qs es where e: "events (snd (execute_script h p False m)) = events m @ qs @ es"
      "\<not> list_ex is_question es"
      "qs = (if validate_script_imports content \<noteq> [] \<and> \<not> False
                 \<and> (\<not> is_validated m p \<or> p \<notin> validated_acknowledged m)
                then [Question (validate_script_imports content)] else [])"
    using events_execute_script[of h p False m] assms(1) by auto
  have "prompted m (snd (execute_script h p False m)) = list_ex is_question (qs @ es)"
    using e(1) by (simp add: prompted_def new_events_def)
  also have "\<dots> = (\<not> is_validated m p \<or> p \<notin> validated_acknowledged m)"
    using e(2,3) assms(2) by (simp add: is_question_def)
  finally show ?thesis .
qed

text \<open>
  Claim C5. In an interactive run of a readable script with at least one warning, the
  prompt is skipped exactly when the script's record is validated and the path is
  already acknowledged. So a record that is not validated always prompts, and so does a
  path with no record in the catalog. The record of a path is the entry the catalog has
  under the base name of the path, which is how \<open>execute_script\<close> looks it up.
\<close>

theorem prompt_skipped_iff_validated_and_acknowledged:
  assumes "read_file h script_path = Inr content"
    and "validate_script_imports content \<noteq> []"
  shows "(\<not> prompted m (snd (execute_script h script_path False m)))
           = (is_validated m script_path \<and> script_path \<in> validated_acknowledged m)
         \<and> (\<not> is_validated m script_path \<longrightarrow> prompted m (snd (execute_script h script_path False m)))
         \<and> (scripts m (basename script_path) = None \<longrightarrow> prompted m (snd (execute_script h script_path False m)))"
  using prompted_interactive [OF assms, of m] by (auto simp: is_validated_def)

lemma acks_demo: "validated_acknowledged (demo_manager_with v acks) = acks"
  by (simp add: demo_manager_with_def)

lemma is_validated_fresh: "is_validated demo_manager p = False"
  by (simp add: is_validated_def demo_manager_def new_manager_def)

lemma risky_nonempty: "validate_script_imports risky_content \<noteq> []"
  by (simp add: risky_content_warnings)

theorem prompt_skipped_iff_validated_and_acknowledged_witness:
  "\<not> prompted (demo_manager_with True {''/scripts/demo.py''})
        (snd (execute_script (demo_host risky_content quiet_run Yes) ''/scripts/demo.py'' False
                (demo_manager_with True {''/scripts/demo.py''})))
   \<and> prompted (demo_manager_with False {''/scripts/demo.py''})
        (snd (execute_script (demo_host risky_content quiet_run Yes) ''/scripts/demo.py'' False
                (demo_manager_with False {''/scripts/demo.py''})))
   \<and> prompted (demo_manager_with True {})
        (snd (execute_script (demo_host risky_content quiet_run Yes) ''/scripts/demo.py'' False
                (demo_manager_with True {})))
   \<and> prompted demo_manager
        (snd (execute_script (demo_host risky_content quiet_run Yes) ''/scripts/demo.py'' False
                demo_manager))"
proof -
  have rd: "read_file (demo_host risky_content quiet_run Yes) ''/scripts/demo.py'' = Inr risky_content"
    by (rule demo_read)
  have w: "validate_script_imports risky_content \<noteq> []"
    by (simp add: risky_content_warnings)
  show ?thesis
    using prompt_skipped_iff_validated_and_acknowledged [OF rd w, of "demo_manager_with True {''/scripts/demo.py''}"]
          prompt_skipped_iff_validated_and_acknowledged [OF rd w, of "demo_manager_with False {''/scripts/demo.py''}"]
          prompt_skipped_iff_validated_and_acknowledged [OF rd w, of "demo_manager_with True {}"]
          prompt_skipped_iff_validated_and_acknowledged [OF rd w, of demo_manager]
    by (simp add: is_validated_demo acks_demo is_validated_fresh)
qed

subsection \<open>The acknowledged paths\<close>

lemma acks_on_exception:
  "validated_acknowledged (snd (on_exception h p c s s2 t w m)) = validated_acknowledged m"
  by (simp add: on_exception_def emit_def Let_def split: sum.splits)

lemma acks_run_body: "validated_acknowledged (snd (run_body h p c s w m)) = validated_acknowledged m"
  by (simp add: run_body_def emit_def Let_def get_captured_output_def written_def
      on_exception_def split: ending.splits prod.splits sum.splits)

lemma acks_confirm:
  "validated_acknowledged (snd (confirm h p c w m)) =
     (if w \<noteq> [] \<and> \<not> c \<and> p \<notin> validated_acknowledged m \<and> is_validated m p \<and> question_reply h = Yes
      then insert p (validated_acknowledged m) else validated_acknowledged m)"
  by (cases "question_reply h") (auto simp add: confirm_def emit_def Let_def)

lemma acks_load_scripts: "validated_acknowledged (load_scripts h m) = validated_acknowledged m"
  by (simp add: load_scripts_def emit_def)

lemma acks_execute_script:
  "validated_acknowledged (snd (execute_script h p c m)) = validated_acknowledged m
   \<or> (validated_acknowledged (snd (execute_script h p c m)) = insert p (validated_acknowledged m)
      \<and> acknowledges p (Execute h p c, m))"
proof (cases "read_file h p")
  case (Inl f)
  then show ?thesis by (simp add: execute_script_unreadable acks_on_exception)
next
  case (Inr content)
  let ?w = "validate_script_imports content"
  have a: "validated_acknowledged (snd (execute_script h p c m)) = validated_acknowledged (snd (confirm h p c ?w m))"
    using Inr by (simp add: execute_script_readable acks_run_body)
  show ?thesis
  proof (cases "?w \<noteq> [] \<and> \<not> c \<and> p \<notin> validated_acknowledged m \<and> is_validated m p \<and> question_reply h = Yes")
    case True
    then have "prompted m (snd (execute_script h p c m))"
      using prompted_interactive[OF Inr, of m] by auto
    then show ?thesis using a True by (simp add: acks_confirm acknowledges_def)
  next
    case False
    then have "validated_acknowledged (snd (confirm h p c ?w m)) = validated_acknowledged m"
      unfolding acks_confirm by (simp only: if_False)
    then show ?thesis using a by simp
  qed
qed

lemma acks_execute_capture:
  "validated_acknowledged (snd (execute_script h p True m)) = validated_acknowledged m"
proof (cases "read_file h p")
  case (Inl f)
  then show ?thesis by (simp add: execute_script_unreadable acks_on_exception)
next
  case (Inr content)
  then show ?thesis by (simp add: execute_script_readable acks_run_body acks_confirm)
qed

lemma acks_step:
  "validated_acknowledged (apply_operation x m) = validated_acknowledged m
   \<or> (\<exists>p. validated_acknowledged (apply_operation x m) = insert p (validated_acknowledged m)
          \<and> acknowledges p (x, m))"
proof (cases x)
  case (Execute h p c)
  then show ?thesis using acks_execute_script[of h p c m] by auto
next
  case (LoadScripts h)
  then show ?thesis by (simp add: acks_load_scripts)
qed

lemma acks_run_operations:
  "validated_acknowledged m \<subseteq> validated_acknowledged (run_operations ops m)
   \<and> (\<forall>p \<in> validated_acknowledged (run_operations ops m) - validated_acknowledged m.
         list_ex (acknowledges p) (steps ops m))"
proof (induction ops arbitrary: m)
  case Nil
  then show ?case by simp
next
  case (Cons x xs)
  let ?m' = "apply_operation x m"
  from acks_step[of x m] Cons.IH[of ?m'] show ?case
    by auto
qed

text \<open>
  Claim C6. Runs and reloads are the operations that reach the manager's state; the set
  of acknowledged paths is written nowhere else. Along every sequence of them the set
  only grows; a path that has entered it did so in an acknowledging step: an interactive
  run of that very path whose record was validated, in which the user was asked and
  answered Yes. A capturing run leaves the set as it is.
\<close>

theorem acknowledged_only_after_validated_yes:
  "validated_acknowledged m \<subseteq> validated_acknowledged (run_operations ops m)
   \<and> (\<forall>p \<in> validated_acknowledged (run_operations ops m) - validated_acknowledged m.
         list_ex (acknowledges p) (steps ops m))
   \<and> validated_acknowledged (apply_operation (Execute h script_path True) m) = validated_acknowledged m"
  using acks_run_operations[of m ops] by (simp add: acks_execute_capture)

lemma acks_execute_readable:
  assumes "read_file h p = Inr content"
  shows "validated_acknowledged (snd (execute_script h p c m)) =
     (if validate_script_imports content \<noteq> [] \<and> \<not> c \<and> p \<notin> validated_acknowledged m
         \<and> is_validated m p \<and> question_reply h = Yes
      then insert p (validated_acknowledged m) else validated_acknowledged m)"
  using assms by (simp add: execute_script_readable acks_run_body acks_confirm)

lemma scripts_on_exception: "scripts (snd (on_exception h p c s s2 t w m)) = scripts m"
  by (simp add: on_exception_def emit_def Let_def split: sum.splits)

lemma scripts_run_body: "scripts (snd (run_body h p c s w m)) = scripts m"
  by (simp add: run_body_def emit_def Let_def get_captured_output_def written_def
      on_exception_def split: ending.splits prod.splits sum.splits)

lemma scripts_confirm: "scripts (snd (confirm h p c w m)) = scripts m"
  by (simp add: confirm_def emit_def Let_def)

lemma scripts_execute_script: "scripts (snd (execute_script h p c m)) = scripts m"
proof (cases "read_file h p")
  case (Inl f)
  then show ?thesis by (simp add: execute_script_unreadable scripts_on_exception)
next
  case (Inr content)
  then show ?thesis by (simp add: execute_script_readable scripts_run_body scripts_confirm)
qed

lemma is_validated_execute_script:
  "is_validated (snd (execute_script h p c m)) q = is_validated m q"
  by (simp add: is_validated_def scripts_execute_script)

lemma validated_risky_content_warnings:
  "validate_script_imports validated_risky_content = [warning_text ''os.system()'']"
  by code_simp

lemma validated_risky_content_validated:
  "parse_docstring_field validated_risky_content ''Validated'' True = PyBool True"
  by code_simp

lemma scripts_dir_execute_script: "scripts_dir (snd (execute_script h p c m)) = scripts_dir m"
  by (simp add: execute_script_def confirm_def run_body_def on_exception_def emit_def Let_def
      get_captured_output_def written_def split: sum.splits ending.splits prod.splits)

lemma demo_load:
  assumes "scripts_dir m = ''/scripts''"
  shows "is_validated (load_scripts (demo_host validated_risky_content r b) m) ''/scripts/demo.py''"
  using assms
  by (simp add: load_scripts_def demo_host_def emit_def
      endswith_def startswith_def path_join_def get_script_info_def is_validated_def basename_demo
      parse_fields_def Let_def validated_risky_content_validated bool_of_def)

theorem acknowledged_only_after_validated_yes_witness:
  "validated_acknowledged
     (run_operations
        [Execute (demo_host validated_risky_content quiet_run Yes) ''/scripts/demo.py'' False,
         LoadScripts (demo_host validated_risky_content quiet_run Yes),
         Execute (demo_host validated_risky_content quiet_run Yes) ''/scripts/demo.py'' True,
         Execute (demo_host validated_risky_content quiet_run Yes) ''/scripts/demo.py'' False]
        demo_manager) = {''/scripts/demo.py''}
   \<and> list_ex (acknowledges ''/scripts/demo.py'')
       (steps
        [Execute (demo_host validated_risky_content quiet_run Yes) ''/scripts/demo.py'' False,
         LoadScripts (demo_host validated_risky_content quiet_run Yes),
         Execute (demo_host validated_risky_content quiet_run Yes) ''/scripts/demo.py'' True,
         Execute (demo_host validated_risky_content quiet_run Yes) ''/scripts/demo.py'' False]
        demo_manager)
   \<and> validated_acknowledged
       (run_operations
        [Execute (demo_host validated_risky_content quiet_run Yes) ''/scripts/demo.py'' False,
         LoadScripts (demo_host validated_risky_content quiet_run Yes),
         Execute (demo_host validated_risky_content quiet_run Yes) ''/scripts/demo.py'' True]
        demo_manager) = {}"
proof -
  let ?h = "demo_host validated_risky_content quiet_run Yes"
  let ?p = "''/scripts/demo.py''"
  let ?m1 = "snd (execute_script ?h ?p False demo_manager)"
  let ?m2 = "load_scripts ?h ?m1"
  let ?m3 = "snd (execute_script ?h ?p True ?m2)"
  have rd: "read_file ?h ?p = Inr validated_risky_content" by (rule demo_read)
  have a0: "validated_acknowledged demo_manager = {}"
    by (simp add: demo_manager_def new_manager_def)
  have a1: "validated_acknowledged ?m1 = {}"
    by (simp add: acks_execute_readable[OF rd] a0 is_validated_fresh)
  have a2: "validated_acknowledged ?m2 = {}"
    by (simp add: acks_load_scripts a1)
  have a3: "validated_acknowledged ?m3 = {}"
    by (simp add: acks_execute_capture a2)
  have "scripts_dir ?m1 = ''/scripts''"
    by (simp add: scripts_dir_execute_script demo_manager_def new_manager_def)
  then have v3: "is_validated ?m3 ?p"
    by (simp add: is_validated_execute_script demo_load)
  have "validated_acknowledged (snd (execute_script ?h ?p False ?m3)) =
          (if validate_script_imports validated_risky_content \<noteq> [] \<and> \<not> False
              \<and> ?p \<notin> validated_acknowledged ?m3 \<and> is_validated ?m3 ?p
              \<and> question_reply ?h = Yes
           then insert ?p (validated_acknowledged ?m3) else validated_acknowledged ?m3)"
    by (rule acks_execute_readable[OF rd])
  then have a4: "validated_acknowledged (snd (execute_script ?h ?p False ?m3)) = {?p}"
    using a3 v3 by (simp add: validated_risky_content_warnings demo_reply)
  show ?thesis
    using acknowledged_only_after_validated_yes [of demo_manager "[Execute ?h ?p False, LoadScripts ?h, Execute ?h ?p True, Execute ?h ?p False]" ?h ?p]
          a0 a3 a4
    by simp
qed

section \<open>Properties of the Risk Scanner\<close>

lemma split_nl_line: "nl \<notin> set l \<Longrightarrow> split_nl l = [l]"
  by (induction l) auto

lemma split_nl_append: "nl \<notin> set l \<Longrightarrow> split_nl (l @ nl # t) = l # split_nl t"
  by (induction l) auto

lemma split_join:
  assumes "ls \<noteq> []" and "\<forall>l \<in> set ls. nl \<notin> set l"
  shows "split_nl (join_nl ls) = ls"
  using assms
proof (induction ls rule: join_nl.induct)
  case 1
  then show ?case by simp
next
  case (2 l)
  then show ?case by (simp add: split_nl_line)
next
  case (3 l m ls)
  then show ?case by (simp add: split_nl_append)
qed

lemma empty_line_is_code: "\<not> is_comment_line []"
  by (simp add: is_comment_line_def lstrip_def startswith_def)

lemma code_of_join:
  assumes "\<forall>l \<in> set ls. nl \<notin> set l"
  shows "code_of (join_nl ls) = join_nl (filter (\<lambda>l. \<not> is_comment_line l) ls)"
proof (cases "ls = []")
  case True
  then show ?thesis by (simp add: code_of_def empty_line_is_code)
next
  case False
  then show ?thesis using assms by (simp add: code_of_def split_join)
qed

lemma warning_text_inj: "warning_text a = warning_text b \<Longrightarrow> a = b"
  by (simp add: warning_text_def)

lemma label_names_pattern:
  "(p, label) \<in> set RISKY_PATTERNS \<Longrightarrow> (q, label) \<in> set RISKY_PATTERNS \<Longrightarrow> p = q"
  by (auto simp: RISKY_PATTERNS_def)

lemma warning_iff_match:
  assumes "(pattern, label) \<in> set RISKY_PATTERNS"
  shows "warning_text label \<in> set (validate_script_imports t) = re_search pattern (code_of t)"
proof
  assume "warning_text label \<in> set (validate_script_imports t)"
  then obtain q l where ql: "(q, l) \<in> set RISKY_PATTERNS" "re_search q (code_of t)" "warning_text l = warning_text label"
    by (auto simp: validate_script_imports_def)
  then have "l = label" using warning_text_inj by blast
  then have "q = pattern" using ql(1) assms label_names_pattern by blast
  then show "re_search pattern (code_of t)" using ql(2) by simp
next
  assume "re_search pattern (code_of t)"
  then show "warning_text label \<in> set (validate_script_imports t)"
    using assms by (force simp: validate_script_imports_def)
qed

lemma validate_by_code:
  "code_of t = code_of t' \<Longrightarrow> validate_script_imports t = validate_script_imports t'"
  by (simp add: validate_script_imports_def)

lemma validate_join:
  assumes "\<forall>l \<in> set ls. nl \<notin> set l"
  shows "validate_script_imports (join_nl ls)
           = validate_script_imports (join_nl (filter (\<lambda>l. \<not> is_comment_line l) ls))"
proof -
  let ?code = "filter (\<lambda>l. \<not> is_comment_line l) ls"
  have "\<forall>l \<in> set ?code. nl \<notin> set l" using assms by simp
  then have "code_of (join_nl ?code) = join_nl (filter (\<lambda>l. \<not> is_comment_line l) ?code)"
    by (rule code_of_join)
  then have "code_of (join_nl ?code) = code_of (join_nl ls)"
    using code_of_join[OF assms] by simp
  then show ?thesis using validate_by_code by metis
qed

text \<open>
  Claim C4, as the code has it. The scanner deletes the lines whose first character
  after leading white space is \<open>#\<close> and searches what is left. So, for a text given
  by its lines: a pattern with no occurrence in the text that is left has no warning,
  and the warnings are those of the text without its comment lines, whatever the
  deleted lines say.
\<close>

theorem comment_lines_are_not_scanned:
  assumes "\<forall>l \<in> set ls. nl \<notin> set l"
    and "(pattern, label) \<in> set RISKY_PATTERNS"
    and "\<not> re_search pattern (join_nl (filter (\<lambda>l. \<not> is_comment_line l) ls))"
  shows "warning_text label \<notin> set (validate_script_imports (join_nl ls))
         \<and> validate_script_imports (join_nl ls)
             = validate_script_imports (join_nl (filter (\<lambda>l. \<not> is_comment_line l) ls))"
proof
  show "warning_text label \<notin> set (validate_script_imports (join_nl ls))"
    using assms by (simp add: warning_iff_match code_of_join)
  show "validate_script_imports (join_nl ls)
          = validate_script_imports (join_nl (filter (\<lambda>l. \<not> is_comment_line l) ls))"
    using assms(1) by (rule validate_join)
qed

lemma commented_lines_clean:
  "\<not> re_search [WordBoundary, Lit ''os'', Spaces, Lit ''.'', Spaces, Lit ''system'', Spaces, Lit ''('']
       (join_nl (filter (\<lambda>l. \<not> is_comment_line l) commented_lines))"
  by code_simp

lemma commented_lines_code:
  "validate_script_imports (join_nl (filter (\<lambda>l. \<not> is_comment_line l) commented_lines)) = []"
  by code_simp

theorem comment_lines_are_not_scanned_witness:
  "warning_text ''os.system()''
     \<notin> set (validate_script_imports
              (''import os'' @ [nl] @ ''# os.system(1)'' @ [nl] @ ''    # os.system(2)'' @ [nl]
               @ ''print(1)''))
   \<and> validate_script_imports
              (''import os'' @ [nl] @ ''# os.system(1)'' @ [nl] @ ''    # os.system(2)'' @ [nl]
               @ ''print(1)'') = []"
proof -
  have lines: "\<forall>l \<in> set commented_lines. nl \<notin> set l"
    by (simp add: commented_lines_def)
  have pat: "([WordBoundary, Lit ''os'', Spaces, Lit ''.'', Spaces, Lit ''system'', Spaces, Lit ''(''],
              ''os.system()'') \<in> set RISKY_PATTERNS"
    by (simp add: RISKY_PATTERNS_def)
  have joined: "join_nl commented_lines
      = ''import os'' @ [nl] @ ''# os.system(1)'' @ [nl] @ ''    # os.system(2)'' @ [nl] @ ''print(1)''"
    by (simp add: commented_lines_def)
  show ?thesis
    using comment_lines_are_not_scanned [OF lines pat commented_lines_clean]
    unfolding commented_lines_code joined by simp
qed

text \<open>
  The claim as the spec states it fails for a risky call that is shown inside a
  docstring: the lines of a docstring are not comment lines, and the call is reported
  although the code of the script, \<open>print(1)\<close>, has none.
\<close>

theorem docstring_example_is_scanned:
  "validate_script_imports docstring_example = [warning_text ''os.system()'']
   \<and> validate_script_imports ''print(1)'' = []"
  by code_simp

lemma distinct_labels: "distinct (map (\<lambda>(pattern, label). warning_text label) RISKY_PATTERNS)"
  by (simp add: RISKY_PATTERNS_def warning_text_def)

text \<open>
  Claim C7. The scanner's result has no warning twice, however often a pattern occurs,
  and it is a subsequence of the warnings of \<open>RISKY_PATTERNS\<close> in the order of that
  list: the order of the source lines plays no part.
\<close>

theorem warnings_distinct_in_pattern_order:
  "distinct (validate_script_imports script_content)
   \<and> subseq (validate_script_imports script_content)
        (map (\<lambda>(pattern, label). warning_text label) RISKY_PATTERNS)"
  unfolding validate_script_imports_def
  using distinct_labels by (simp add: distinct_map_filter subseq_map)

theorem warnings_distinct_in_pattern_order_witness:
  "validate_script_imports risky_content = [warning_text ''subprocess.call'', warning_text ''os.system()'']
   \<and> distinct (validate_script_imports risky_content)
   \<and> subseq (validate_script_imports risky_content) (map (\<lambda>(pattern, label). warning_text label) RISKY_PATTERNS)"
  using warnings_distinct_in_pattern_order [of risky_content] risky_content_warnings by simp

section \<open>Properties of the Metadata Parser\<close>

lemma of_char_lt: "(of_char c :: nat) < 256"
  by (rule nat_of_char_less_256)

lemma isspace_lower: "py_isspace (py_lower f) = py_isspace f"
  using of_char_lt[of f]
  by (auto simp add: py_isspace_def py_lower_def Let_def)

lemma lower_space: "py_isspace c \<Longrightarrow> py_lower c = c"
  by (auto simp add: py_isspace_def py_lower_def Let_def)

lemma space_differs:
  assumes "py_isspace c" and "\<not> py_isspace f"
  shows "py_lower c \<noteq> py_lower f"
proof
  assume "py_lower c = py_lower f"
  then have "py_isspace (py_lower f)" using assms(1) lower_space by metis
  then show False using assms(2) isspace_lower by simp
qed

lemma match_field_first:
  assumes "match_field field (c # cs) = Some g" and "field \<noteq> []"
  shows "py_lower c = py_lower (hd field)"
proof -
  obtain f fs where f: "field = f # fs" using assms(2) by (cases field) auto
  have "lower (take (length field) (c # cs)) = lower field"
    using assms(1) by (simp add: match_field_def split: if_splits)
  then show ?thesis using f by (simp add: lower_def)
qed

lemma spaces_then_eq:
  assumes "field \<noteq> []" and "\<not> py_isspace (hd field)"
  shows "spaces_then field t = lazy_any field t"
proof (induction t)
  case Nil
  then show ?case by simp
next
  case (Cons c cs)
  show ?case
  proof (cases "py_isspace c")
    case True
    have "match_field field (c # cs) = None"
    proof (cases "match_field field (c # cs)")
      case None
      then show ?thesis .
    next
      case (Some g)
      then have "py_lower c = py_lower (hd field)" using match_field_first assms(1) by blast
      then show ?thesis using space_differs[OF True assms(2)] by simp
    qed
    then show ?thesis using True Cons.IH by (simp split: option.splits)
  next
    case False
    then show ?thesis by simp
  qed
qed

lemma lazy_any_None_tl: "lazy_any field (c # cs) = None \<Longrightarrow> lazy_any field cs = None"
  by (simp split: option.splits)

lemma lazy_any_None_drop: "lazy_any field t = None \<Longrightarrow> lazy_any field (drop k t) = None"
proof (induction k arbitrary: t)
  case 0
  then show ?case by simp
next
  case (Suc k)
  show ?case
  proof (cases t)
    case Nil
    then show ?thesis using Suc.prems by simp
  next
    case (Cons c cs)
    then show ?thesis using Suc lazy_any_None_tl by auto
  qed
qed

lemma spaces_then_None: "spaces_then field t = None \<Longrightarrow> lazy_any field t = None"
  by (induction t) (auto split: if_splits option.splits)

lemma lazy_any_None_spaces: "lazy_any field t = None \<Longrightarrow> spaces_then field t = None"
proof (induction t)
  case Nil
  then show ?case by simp
next
  case (Cons c cs)
  then have "lazy_any field cs = None" using lazy_any_None_tl by blast
  then show ?case using Cons by (simp split: option.splits)
qed

lemma search_field_None:
  "lazy_any field (drop 3 s) = None \<Longrightarrow> search_field field s = None"
proof (induction s)
  case Nil
  then show ?case by (simp add: match_here_def triple_quote_def startswith_def)
next
  case (Cons c cs)
  have "drop 3 cs = drop 1 (drop 3 (c # cs))" by (simp add: eval_nat_numeral)
  then have "lazy_any field (drop 3 cs) = None"
    using Cons.prems lazy_any_None_drop by metis
  then have "search_field field cs = None" using Cons.IH by simp
  moreover have "match_here field (c # cs) = None"
    using Cons.prems lazy_any_None_spaces by (simp add: match_here_def)
  ultimately show ?case by simp
qed

lemma search_field_at_opener:
  assumes "triple_quote s"
  shows "search_field field s = spaces_then field (drop 3 s)"
proof (cases s)
  case Nil
  then show ?thesis using assms by (simp add: triple_quote_def startswith_def)
next
  case (Cons c cs)
  show ?thesis
  proof (cases "spaces_then field (drop 3 s)")
    case None
    then have n: "lazy_any field (drop 3 s) = None" by (rule spaces_then_None)
    have "drop 3 cs = drop 1 (drop 3 s)" using Cons by (simp add: eval_nat_numeral)
    then have "lazy_any field (drop 3 cs) = None" using n lazy_any_None_drop by metis
    then have "search_field field cs = None" by (rule search_field_None)
    then show ?thesis using Cons None assms by (simp add: match_here_def)
  next
    case (Some g)
    then show ?thesis using Cons assms by (simp add: match_here_def)
  qed
qed

lemma search_field_first_opener:
  "search_field field content =
     (case after_first_opener content of None \<Rightarrow> None | Some rest \<Rightarrow> spaces_then field rest)"
proof (induction content)
  case Nil
  then show ?case by (simp add: match_here_def triple_quote_def startswith_def)
next
  case (Cons c cs)
  show ?case
  proof (cases "triple_quote (c # cs)")
    case True
    then show ?thesis using search_field_at_opener[OF True, of field] by simp
  next
    case False
    then show ?thesis using Cons.IH by (simp add: match_here_def)
  qed
qed

lemma lazy_any_skip:
  assumes "field \<noteq> []" and "\<forall>c \<in> set a. py_lower c \<noteq> py_lower (hd field)"
  shows "lazy_any field (a @ t) = lazy_any field t"
  using assms(2)
proof (induction a)
  case Nil
  then show ?case by simp
next
  case (Cons c a)
  have "match_field field (c # a @ t) = None"
  proof (cases "match_field field (c # a @ t)")
    case None
    then show ?thesis .
  next
    case (Some g)
    then have "py_lower c = py_lower (hd field)" using match_field_first assms(1) by blast
    then show ?thesis using Cons.prems by simp
  qed
  then show ?case using Cons by simp
qed

lemma line_group_value:
  assumes "v \<noteq> []" and "nl \<notin> set v"
  shows "line_group (v @ nl # post) = Some v"
proof -
  have "takeWhile (\<lambda>c. c \<noteq> nl) (v @ nl # post) = v"
    using assms(2) by (induction v) auto
  then show ?thesis using assms(1) by (simp add: line_group_def)
qed

lemma match_rest_value:
  assumes "v \<noteq> []" and "nl \<notin> set v" and "\<not> py_isspace (hd v)"
    and "\<forall>c \<in> set sp. py_isspace c"
  shows "match_rest (sp @ v @ nl # post) = Some v"
  using assms(4)
proof (induction sp)
  case Nil
  obtain x xs where v: "v = x # xs" using assms(1) by (cases v) auto
  have "match_rest (x # xs @ nl # post) = line_group (x # xs @ nl # post)"
    using assms(3) v by simp
  then show ?case using line_group_value[OF assms(1,2), of post] v by simp
next
  case (Cons c sp)
  then show ?case by simp
qed

lemma match_field_hit:
  "match_field field (field @ CHR '':'' # r) = match_rest r"
  by (simp add: match_field_def)

lemma lazy_any_hit:
  assumes "v \<noteq> []" and "nl \<notin> set v" and "\<not> py_isspace (hd v)"
    and "\<forall>c \<in> set sp. py_isspace c"
  shows "lazy_any field (field @ CHR '':'' # sp @ v @ nl # post) = Some v"
proof (cases "field @ CHR '':'' # sp @ v @ nl # post")
  case Nil
  then show ?thesis by simp
next
  case (Cons c cs)
  have "match_field field (c # cs) = Some v"
    using match_field_hit[of field "sp @ v @ nl # post"] match_rest_value[OF assms, of post] Cons
    by simp
  then show ?thesis using Cons by simp
qed

lemma after_first_opener_head:
  "after_first_opener ([dquote, dquote, dquote] @ t) = Some t"
  by (simp add: triple_quote_def startswith_def)

text \<open>
  Claim C3, as the code has it. For a field name that does not begin with white space,
  the search starts at the first triple quote of the content and takes the nearest
  \<open>Field: value\<close> in all the text that follows it; the end of the first string does
  not stop it. In particular, when the text up to a declaration
  \<open>Field: value\<close> that stands after the first docstring has closed holds no
  character equal, case ignored, to the first of the field name (so no earlier
  declaration of the field), the value found is the one of that declaration.
\<close>

theorem fields_searched_to_end_of_text:
  assumes "field \<noteq> []" and "\<not> py_isspace (hd field)"
  shows "search_field field content =
           (case after_first_opener content of None \<Rightarrow> None | Some rest \<Rightarrow> lazy_any field rest)
         \<and> ((\<forall>c \<in> set (doc @ [dquote, dquote, dquote] @ mid). py_lower c \<noteq> py_lower (hd field))
              \<and> v \<noteq> [] \<and> nl \<notin> set v \<and> \<not> py_isspace (hd v) \<and> (\<forall>c \<in> set sp. py_isspace c)
            \<longrightarrow> search_field field
                  ([dquote, dquote, dquote] @ doc @ [dquote, dquote, dquote] @ mid
                   @ field @ CHR '':'' # sp @ v @ nl # post) = Some v)"
proof -
  have first: "\<And>t. search_field field t =
           (case after_first_opener t of None \<Rightarrow> None | Some rest \<Rightarrow> lazy_any field rest)"
    using search_field_first_opener spaces_then_eq[OF assms] by (simp split: option.splits)
  have later: "search_field field
                  ([dquote, dquote, dquote] @ doc @ [dquote, dquote, dquote] @ mid
                   @ field @ CHR '':'' # sp @ v @ nl # post) = Some v"
    if h: "\<forall>c \<in> set (doc @ [dquote, dquote, dquote] @ mid). py_lower c \<noteq> py_lower (hd field)"
      "v \<noteq> []" "nl \<notin> set v" "\<not> py_isspace (hd v)" "\<forall>c \<in> set sp. py_isspace c"
  proof -
    have "search_field field
                  ([dquote, dquote, dquote] @ ((doc @ [dquote, dquote, dquote] @ mid)
                   @ field @ CHR '':'' # sp @ v @ nl # post))
          = lazy_any field ((doc @ [dquote, dquote, dquote] @ mid)
                   @ field @ CHR '':'' # sp @ v @ nl # post)"
      unfolding first after_first_opener_head by simp
    also have "\<dots> = lazy_any field (field @ CHR '':'' # sp @ v @ nl # post)"
      using lazy_any_skip[OF assms(1) h(1)] by blast
    also have "\<dots> = Some v"
      using lazy_any_hit[OF h(2,3,4,5)] by blast
    finally show ?thesis by simp
  qed
  show ?thesis using first later by blast
qed

theorem fields_searched_to_end_of_text_witness:
  "search_field ''Validated'' two_docstrings = Some ''true''
   \<and> search_field ''Validated'' one_docstring
       = lazy_any ''Validated'' (''Adds a buffer.'' @ [dquote, dquote, dquote] @ [nl] @ ''print(1)'')"
proof -
  have f: "''Validated'' \<noteq> []" by simp
  have s: "\<not> py_isspace (hd ''Validated'')" by code_simp
  have two: "[dquote, dquote, dquote] @ ''Adds a buffer.'' @ [dquote, dquote, dquote]
      @ ([nl] @ [dquote, dquote, dquote] @ [nl])
      @ ''Validated'' @ CHR '':'' # '' '' @ ''true'' @ nl # ([dquote, dquote, dquote] @ [nl] @ ''print(1)'')
      = two_docstrings"
    by (simp add: two_docstrings_def)
  have h: "(\<forall>c \<in> set (''Adds a buffer.'' @ [dquote, dquote, dquote] @ ([nl] @ [dquote, dquote, dquote] @ [nl])).
                py_lower c \<noteq> py_lower (hd ''Validated''))
           \<and> ''true'' \<noteq> [] \<and> nl \<notin> set ''true'' \<and> \<not> py_isspace (hd ''true'')
           \<and> (\<forall>c \<in> set '' ''. py_isspace c)"
    by code_simp
  have one: "after_first_opener one_docstring
               = Some (''Adds a buffer.'' @ [dquote, dquote, dquote] @ [nl] @ ''print(1)'')"
    by (simp add: one_docstring_def triple_quote_def startswith_def)
  note c = fields_searched_to_end_of_text [OF f s, of one_docstring "''Adds a buffer.''" "[nl] @ [dquote, dquote, dquote] @ [nl]"
                "''true''" "'' ''" "[dquote, dquote, dquote] @ [nl] @ ''print(1)''"]
  have a: "search_field ''Validated'' two_docstrings = Some ''true''"
    using mp [OF conjunct2 [OF c] h] unfolding two .
  have b: "search_field ''Validated'' one_docstring
       = lazy_any ''Validated'' (''Adds a buffer.'' @ [dquote, dquote, dquote] @ [nl] @ ''print(1)'')"
    using conjunct1 [OF c] by (simp only: one option.case)
  show ?thesis using a b by (rule conjI)
qed

lemma two_docstrings_validated: "parse_docstring_field two_docstrings ''Validated'' True = PyBool True"
  by code_simp

lemma one_docstring_not_validated: "parse_docstring_field one_docstring ''Validated'' True = PyBool False"
  by code_simp

text \<open>
  The claim as the spec states it fails for a script whose second triple-quoted string
  declares \<open>Validated: true\<close>: the record is validated, and it is not when the second
  string is taken away.
\<close>

theorem second_docstring_sets_validated:
  "validated (parse_fields two_docstrings ''/scripts/demo.py'') = True
   \<and> validated (parse_fields one_docstring ''/scripts/demo.py'') = False"
  by (simp add: parse_fields_def Let_def one_docstring_not_validated two_docstrings_validated bool_of_def)

end
